theory Spec2Isabelle
  imports Main "HOL-Library.Sublist"
begin

section \<open>Python text primitives used by the script\<close>

text \<open>
  Python strings are modelled as \<^typ>\<open>string\<close>; a character stands for the code point
  with the same number (0 to 255). Code points above 255 are outside the model.
  \<^verbatim>\<open>int()\<close>'s interpreter-configured length limit on digit strings is not modelled.
\<close>

datatype error =
    ValueError
  | TransportError
  | OSError
  | SystemExit string

definition NL :: string where
  "NL = [CHR 0x0A]"

text \<open>\<^verbatim>\<open>str.isspace\<close> on one character: U+0009..U+000D, U+001C..U+0020, U+0085, U+00A0.\<close>

definition isspace :: "char \<Rightarrow> bool" where
  "isspace c =
     (let n = (of_char c :: nat)
      in (9 \<le> n \<and> n \<le> 13) \<or> (28 \<le> n \<and> n \<le> 32) \<or> n = 133 \<or> n = 160)"

text \<open>\<^verbatim>\<open>str.strip()\<close> with no argument.\<close>

definition strip :: "string \<Rightarrow> string" where
  "strip s = rev (dropWhile isspace (rev (dropWhile isspace s)))"

definition ascii_digit :: "char \<Rightarrow> bool" where
  "ascii_digit c = (let n = (of_char c :: nat) in 48 \<le> n \<and> n \<le> 57)"

text \<open>
  \<^verbatim>\<open>str.isdigit\<close> on one character: the ASCII digits and the superscript digits
  U+00B2, U+00B3, U+00B9, which \<^verbatim>\<open>int()\<close> rejects.
\<close>

definition digit_char :: "char \<Rightarrow> bool" where
  "digit_char c =
     (let n = (of_char c :: nat) in ascii_digit c \<or> n = 178 \<or> n = 179 \<or> n = 185)"

definition isdigit :: "string \<Rightarrow> bool" where
  "isdigit s = (s \<noteq> [] \<and> list_all digit_char s)"

definition digit_val :: "char \<Rightarrow> int" where
  "digit_val c = int (of_char c) - 48"

text \<open>\<^verbatim>\<open>int(s)\<close> for a text that already passed \<^verbatim>\<open>isdigit\<close>.\<close>

definition py_int :: "string \<Rightarrow> error + int" where
  "py_int s =
     (if s \<noteq> [] \<and> list_all ascii_digit s
      then Inr (foldl (\<lambda>acc c. acc * 10 + digit_val c) 0 s)
      else Inl ValueError)"

text \<open>\<^verbatim>\<open>str.find\<close>: the index of the first occurrence, if any.\<close>

fun py_find :: "string \<Rightarrow> string \<Rightarrow> nat option" where
  "py_find sub [] = (if sub = [] then Some 0 else None)"
| "py_find sub (c # cs) =
     (if prefix sub (c # cs) then Some 0 else map_option Suc (py_find sub cs))"

text \<open>\<^verbatim>\<open>sub in s\<close>.\<close>

definition py_in :: "string \<Rightarrow> string \<Rightarrow> bool" where
  "py_in sub s = (py_find sub s \<noteq> None)"

text \<open>\<^verbatim>\<open>s.index(sub)\<close>, which raises ValueError when there is no occurrence.\<close>

definition py_index :: "string \<Rightarrow> string \<Rightarrow> error + nat" where
  "py_index s sub = (case py_find sub s of None \<Rightarrow> Inl ValueError | Some i \<Rightarrow> Inr i)"

text \<open>\<^verbatim>\<open>sep.join(parts)\<close>.\<close>

fun join :: "string \<Rightarrow> string list \<Rightarrow> string" where
  "join sep [] = []"
| "join sep [x] = x"
| "join sep (x # y # ys) = x @ sep @ join sep (y # ys)"

text \<open>Decimal text of an integer, as an f-string prints it.\<close>

definition digit_of :: "nat \<Rightarrow> char" where
  "digit_of d = char_of (48 + d)"

fun str_nat :: "nat \<Rightarrow> string" where
  "str_nat n = (if n < 10 then [digit_of n] else str_nat (n div 10) @ [digit_of (n mod 10)])"

declare str_nat.simps [simp del]

definition str_int :: "int \<Rightarrow> string" where
  "str_int i = (if i < 0 then CHR ''-'' # str_nat (nat (- i)) else str_nat (nat i))"

text \<open>\<^verbatim>\<open>html.escape(s)\<close> with its default \<^verbatim>\<open>quote=True\<close>.\<close>

definition escape_char :: "char \<Rightarrow> string" where
  "escape_char c =
     (if c = CHR ''&'' then ''&amp;''
      else if c = CHR ''<'' then ''&lt;''
      else if c = CHR ''>'' then ''&gt;''
      else if c = CHR 0x22 then ''&quot;''
      else if c = CHR 0x27 then ''&#x27;''
      else [c])"

definition escape :: "string \<Rightarrow> string" where
  "escape s = concat (map escape_char s)"

section \<open>Configuration constants\<close>

definition START_YEAR :: int where
  "START_YEAR = 2018"

definition MARKER_START :: string where
  "MARKER_START = ''<!-- AUTO-GENERATED PUBLICATIONS START -->''"

definition MARKER_END :: string where
  "MARKER_END = ''<!-- AUTO-GENERATED PUBLICATIONS END -->''"

section \<open>Publication records and page rows\<close>

record publication =
  year :: int
  title :: string
  link :: string
  venue :: string

text \<open>
  One \<^verbatim>\<open>tr.gsc_a_tr\<close> element of a fetched page, given by what the three selectors of
  \<^verbatim>\<open>parse_rows\<close> find in it: the text of the first \<^verbatim>\<open>td.gsc_a_y span\<close>, the text and
  the \<^verbatim>\<open>href\<close> attribute of the first \<^verbatim>\<open>a.gsc_a_at\<close>, and the texts of all
  \<^verbatim>\<open>div.gs_gray\<close> elements. A page is the list of its rows in document order.
\<close>

record row =
  year_span :: "string option"
  link_tag :: "(string \<times> string option) option"
  detail_lines :: "string list"

type_synonym soup = "row list"

section \<open>Row parser\<close>

text \<open>
  The loop of \<^verbatim>\<open>parse_rows\<close> over the remaining rows, with the list built so far.
  \<^verbatim>\<open>continue\<close> goes on with the next row, \<^verbatim>\<open>break\<close> returns the list.
\<close>

fun parse_loop :: "row list \<Rightarrow> publication list \<Rightarrow> error + publication list" where
  "parse_loop [] publications = Inr publications"
| "parse_loop (r # rs) publications =
     (case year_span r of
        None \<Rightarrow> parse_loop rs publications
      | Some span_text \<Rightarrow>
          let year_text = strip span_text in
          if \<not> isdigit year_text then parse_loop rs publications
          else
            (case py_int year_text of
               Inl e \<Rightarrow> Inl e
             | Inr y \<Rightarrow>
                 if y < START_YEAR then Inr publications
                 else
                   (case link_tag r of
                      None \<Rightarrow> parse_loop rs publications
                    | Some (link_text, href) \<Rightarrow>
                        let t = strip link_text;
                            l = ''https://scholar.google.com'' @ (case href of None \<Rightarrow> [] | Some h \<Rightarrow> h);
                            v = (if length (detail_lines r) > 1 then strip (detail_lines r ! 1) else [])
                        in parse_loop rs
                             (publications @ [\<lparr>year = y, title = t, link = l, venue = v\<rparr>]))))"

definition parse_rows :: "soup \<Rightarrow> error + publication list" where
  "parse_rows soup = parse_loop soup []"

section \<open>Chunking\<close>

text \<open>
  The generator \<^verbatim>\<open>chunk\<close>: the slices \<^verbatim>\<open>items[i : i + size]\<close> for \<^verbatim>\<open>i\<close> in
  \<^verbatim>\<open>range(0, len(items), size)\<close>. A zero step makes \<^verbatim>\<open>range\<close> raise ValueError, a negative
  step gives an empty range.
\<close>

function chunk_from :: "'a list \<Rightarrow> nat \<Rightarrow> nat \<Rightarrow> 'a list list" where
  "chunk_from items sz i =
     (if 0 < sz \<and> i < length items
      then take sz (drop i items) # chunk_from items sz (i + sz)
      else [])"
  by pat_completeness auto
termination
  by (relation "measure (\<lambda>(items, sz, i). length items - i)") auto

declare chunk_from.simps [simp del]

definition chunk :: "'a list \<Rightarrow> int \<Rightarrow> error + 'a list list" where
  "chunk items sz =
     (if sz = 0 then Inl ValueError
      else if sz < 0 then Inr []
      else Inr (chunk_from items (nat sz) 0))"

section \<open>Pagination crawler\<close>

text \<open>
  \<^verbatim>\<open>fetch_page\<close> is the network boundary: a parameter that gives, for an offset, the
  parsed page or the error that \<^verbatim>\<open>requests\<close> raises. The loop of
  \<^verbatim>\<open>fetch_publications\<close> may run forever (a listing with no empty page), so it is a
  partial function: \<^term>\<open>None\<close> is a run that does not return. Beside its result the loop gives the
  offsets it requested, in order.
\<close>

partial_function (option) crawl_loop ::
  "(int \<Rightarrow> error + soup) \<Rightarrow> publication list \<Rightarrow> int \<Rightarrow> int list
     \<Rightarrow> ((error + publication list) \<times> int list) option" where
  "crawl_loop fetch_page all_pubs cstart requested =
     (case fetch_page cstart of
        Inl e \<Rightarrow> Some (Inl e, requested @ [cstart])
      | Inr soup \<Rightarrow>
          (case parse_rows soup of
             Inl e \<Rightarrow> Some (Inl e, requested @ [cstart])
           | Inr pubs \<Rightarrow>
               if pubs = [] then Some (Inr all_pubs, requested @ [cstart])
               else if year (last pubs) < START_YEAR
                 then Some (Inr (all_pubs @ pubs), requested @ [cstart])
                 else crawl_loop fetch_page (all_pubs @ pubs) (cstart + 20)
                        (requested @ [cstart])))"

declare crawl_loop.simps [code]

definition fetch_publications ::
  "(int \<Rightarrow> error + soup) \<Rightarrow> ((error + publication list) \<times> int list) option" where
  "fetch_publications fetch_page = crawl_loop fetch_page [] 0 []"

section \<open>Grouping and rendering\<close>

text \<open>
  The dictionary \<^verbatim>\<open>by_year\<close> as an association list in insertion order;
  \<^verbatim>\<open>by_year.setdefault(pub.year, []).append(pub)\<close> is one step of its construction.
\<close>

fun setdefault_append ::
  "(int \<times> publication list) list \<Rightarrow> publication \<Rightarrow> (int \<times> publication list) list" where
  "setdefault_append [] pub = [(year pub, [pub])]"
| "setdefault_append ((k, v) # kvs) pub =
     (if k = year pub then (k, v @ [pub]) # kvs else (k, v) # setdefault_append kvs pub)"

definition group_by_year :: "publication list \<Rightarrow> (int \<times> publication list) list" where
  "group_by_year pubs = foldl setdefault_append [] pubs"

text \<open>\<^verbatim>\<open>by_year[year]\<close>; the renderer only asks for keys of the dictionary.\<close>

definition lookup_year :: "(int \<times> publication list) list \<Rightarrow> int \<Rightarrow> publication list" where
  "lookup_year by_year y = (case map_of by_year y of None \<Rightarrow> [] | Some v \<Rightarrow> v)"

text \<open>\<^verbatim>\<open>sorted(by_year.keys(), reverse=True)\<close>.\<close>

definition years_desc :: "(int \<times> publication list) list \<Rightarrow> int list" where
  "years_desc by_year = rev (sort (map fst by_year))"

definition render_pub :: "publication \<Rightarrow> string" where
  \<open>render_pub pub =
     (let title' = escape (title pub);
          venue' = escape (venue pub);
          link' = escape (link pub)
      in ''      <div class="col-md-4 paperbox">'' @ NL
       @ ''        <div class="media">'' @ NL
       @ ''          <div class="media-body">'' @ NL
       @ ''            <div class="smallhead media-heading">'' @ NL
       @ ''              <a href="'' @ link' @ ''" class="off">'' @ title' @ ''</a>'' @ NL
       @ ''            </div>'' @ NL
       @ ''            <p class="note"><i>'' @ venue' @ ''</i></p>'' @ NL
       @ ''          </div>'' @ NL
       @ ''        </div>'' @ NL
       @ ''      <div class="bigspacer"></div><div class="spacer"></div>'' @ NL
       @ ''      </div>'')\<close>

text \<open>The parts appended for one group of up to three records.\<close>

definition render_group :: "publication list \<Rightarrow> string list" where
  \<open>render_group grp = [''  <div class="row">''] @ map render_pub grp @ [''  </div>'', []]\<close>

text \<open>
  The parts appended for one year. \<^verbatim>\<open>chunk(by_year[year], 3)\<close> has the positive step 3,
  see \<open>chunk_3\<close>.
\<close>

definition render_year :: "(int \<times> publication list) list \<Rightarrow> int \<Rightarrow> string list" where
  \<open>render_year by_year y =
     [''  <div class="bigtitle">'' @ str_int y @ ''</div>'', ''  <div class="spacer"></div>'']
     @ concat (map render_group (chunk_from (lookup_year by_year y) 3 0))\<close>

definition build_parts :: "publication list \<Rightarrow> string list" where
  "build_parts pubs =
     (let by_year = group_by_year pubs
      in [MARKER_START] @ concat (map (render_year by_year) (years_desc by_year))
         @ [MARKER_END, []])"

definition build_html :: "publication list \<Rightarrow> string" where
  "build_html pubs = join NL (build_parts pubs)"

section \<open>Document splicer\<close>

definition anchor :: string where
  \<open>anchor = ''  <div class="bigtitle">2017</div>''\<close>

definition inject_html :: "string \<Rightarrow> string \<Rightarrow> error + string" where
  "inject_html existing new_block =
     (if py_in MARKER_START existing \<and> py_in MARKER_END existing then
        (case py_index existing MARKER_START of
           Inl e \<Rightarrow> Inl e
         | Inr start \<Rightarrow>
             (case py_index existing MARKER_END of
                Inl e \<Rightarrow> Inl e
              | Inr i \<Rightarrow>
                  let stop = i + length MARKER_END
                  in Inr (take start existing @ new_block @ drop stop existing)))
      else if \<not> py_in anchor existing then
        Inl (SystemExit ''Could not find insertion anchor in papers/index.html'')
      else
        (case py_index existing anchor of
           Inl e \<Rightarrow> Inl e
         | Inr idx \<Rightarrow> Inr (take idx existing @ new_block @ NL @ drop idx existing)))"

section \<open>Orchestrator\<close>

text \<open>
  The state outside the program: the text of \<^verbatim>\<open>papers/index.html\<close> (\<^term>\<open>None\<close> when it
  cannot be read), the lines printed, the page offsets requested from the listing, the number of
  reads of the document and the texts written to it.
\<close>

record world =
  doc_text :: "string option"
  stdout :: "string list"
  requests :: "int list"
  reads :: nat
  writes :: "string list"

datatype outcome = Returned int | Raised error

text \<open>
  \<^verbatim>\<open>main\<close>, with the listing and the printed form of the path \<^verbatim>\<open>PAPERS_INDEX\<close> as
  parameters. \<^term>\<open>None\<close> is a run whose crawl does not return.
\<close>

definition main ::
  "(int \<Rightarrow> error + soup) \<Rightarrow> string \<Rightarrow> world \<Rightarrow> (outcome \<times> world) option" where
  "main fetch_page papers_index w =
     (case fetch_publications fetch_page of
        None \<Rightarrow> None
      | Some (r, requested) \<Rightarrow>
          let w1 = w\<lparr>requests := requests w @ requested\<rparr> in
          (case r of
             Inl e \<Rightarrow> Some (Raised e, w1)
           | Inr pubs \<Rightarrow>
               if pubs = [] then
                 Some (Returned 1, w1\<lparr>stdout := stdout w1 @ [''No publications fetched.'']\<rparr>)
               else
                 let html_block = build_html pubs in
                 (case doc_text w1 of
                    None \<Rightarrow> Some (Raised OSError, w1\<lparr>reads := Suc (reads w1)\<rparr>)
                  | Some current \<Rightarrow>
                      let w2 = w1\<lparr>reads := Suc (reads w1)\<rparr> in
                      (case inject_html current html_block of
                         Inl e \<Rightarrow> Some (Raised e, w2)
                       | Inr updated \<Rightarrow>
                           let w3 = w2\<lparr>doc_text := Some updated, writes := writes w2 @ [updated]\<rparr>
                           in Some (Returned 0,
                                w3\<lparr>stdout := stdout w3 @
                                  [''Inserted '' @ str_nat (length pubs) @ '' publications (>= ''
                                   @ str_int START_YEAR @ '') into '' @ papers_index @ ''.'']\<rparr>)))))"

text \<open>
  The last line of the script, \<^verbatim>\<open>sys.exit(main())\<close>, and the exit status that the
  interpreter gives the process: \<^verbatim>\<open>sys.exit(n)\<close> with the integer that \<^verbatim>\<open>main\<close>
  returned (0 or 1) exits with that integer; an uncaught \<^verbatim>\<open>SystemExit\<close> that carries a
  text prints the text to the error stream and exits with 1; any other uncaught exception
  prints a traceback and exits with 1.
\<close>

definition exit_status :: "outcome \<Rightarrow> int" where
  "exit_status out = (case out of Returned n \<Rightarrow> n | Raised e \<Rightarrow> 1)"

definition run_script ::
  "(int \<Rightarrow> error + soup) \<Rightarrow> string \<Rightarrow> world \<Rightarrow> (int \<times> world) option" where
  "run_script fetch_page papers_index w =
     (case main fetch_page papers_index w of
        None \<Rightarrow> None
      | Some (out, w') \<Rightarrow> Some (exit_status out, w'))"

section \<open>Notions used to state the properties\<close>

text \<open>
  What the parser reads off one row: the year, when the row has a year text that is numeric and
  that \<^verbatim>\<open>int()\<close> accepts.
\<close>

definition year_of_row :: "row \<Rightarrow> int option" where
  "year_of_row r =
     (case year_span r of
        None \<Rightarrow> None
      | Some span_text \<Rightarrow>
          if isdigit (strip span_text)
          then (case py_int (strip span_text) of Inl e \<Rightarrow> None | Inr y \<Rightarrow> Some y)
          else None)"

text \<open>A row whose year text passes \<^verbatim>\<open>isdigit\<close> and makes \<^verbatim>\<open>int()\<close> raise.\<close>

definition unparsable :: "row \<Rightarrow> bool" where
  "unparsable r =
     (case year_span r of
        None \<Rightarrow> False
      | Some span_text \<Rightarrow> isdigit (strip span_text) \<and> py_int (strip span_text) = Inl ValueError)"

definition below_cutoff :: "row \<Rightarrow> bool" where
  "below_cutoff r = (case year_of_row r of None \<Rightarrow> False | Some y \<Rightarrow> y < START_YEAR)"

text \<open>
  The record of a row that qualifies structurally (a numeric year and a title link), whatever
  its year; \<^term>\<open>None\<close> for a row that does not qualify.
\<close>

definition row_pub :: "row \<Rightarrow> publication option" where
  "row_pub r =
     (case year_of_row r of
        None \<Rightarrow> None
      | Some y \<Rightarrow>
          (case link_tag r of
             None \<Rightarrow> None
           | Some (link_text, href) \<Rightarrow>
               Some \<lparr>year = y, title = strip link_text,
                     link = ''https://scholar.google.com'' @ (case href of None \<Rightarrow> [] | Some h \<Rightarrow> h),
                     venue = (if length (detail_lines r) > 1 then strip (detail_lines r ! 1) else [])\<rparr>))"

text \<open>The rows of a page before its first row with a numeric year below the cutoff.\<close>

definition rows_before_cutoff :: "soup \<Rightarrow> row list" where
  "rows_before_cutoff soup = takeWhile (\<lambda>r. \<not> below_cutoff r) soup"

text \<open>The records that the parser gets from page number \<open>k\<close> of a listing, if any.\<close>

definition page_records :: "(int \<Rightarrow> error + soup) \<Rightarrow> nat \<Rightarrow> (publication list) option" where
  "page_records fetch_page k =
     (case fetch_page (20 * int k) of
        Inl e \<Rightarrow> None
      | Inr soup \<Rightarrow> (case parse_rows soup of Inl e \<Rightarrow> None | Inr pubs \<Rightarrow> Some pubs))"

text \<open>The year of the last row of page number \<open>k\<close> of a listing.\<close>

definition last_row_year :: "(int \<Rightarrow> error + soup) \<Rightarrow> nat \<Rightarrow> int option" where
  "last_row_year fetch_page k =
     (case fetch_page (20 * int k) of
        Inl e \<Rightarrow> None
      | Inr soup \<Rightarrow> if soup = [] then None else year_of_row (last soup))"

text \<open>
  A part of the fragment that is the card of a record: it begins with the opening line of the
  card template. The headings, spacers and row containers are indented less.
\<close>

definition is_card :: "string \<Rightarrow> bool" where
  \<open>is_card part = prefix ''      <div class="col-md-4 paperbox">'' part\<close>

text \<open>The parts that the renderer puts between the two markers.\<close>

definition body_parts :: "publication list \<Rightarrow> string list" where
  "body_parts pubs =
     (let by_year = group_by_year pubs
      in concat (map (render_year by_year) (years_desc by_year)))"

text \<open>
  A text in which no \<^verbatim>\<open><\<close> is followed by \<^verbatim>\<open>!\<close> and which does not end with
  \<^verbatim>\<open><\<close>: appending such texts cannot create the opening of a comment.
\<close>

fun no_comment_open :: "string \<Rightarrow> bool" where
  "no_comment_open [] = True"
| "no_comment_open [c] = (c \<noteq> CHR ''<'')"
| "no_comment_open (c # d # cs) =
     (\<not> (c = CHR ''<'' \<and> d = CHR ''!'') \<and> no_comment_open (d # cs))"

subsection \<open>Concrete inputs\<close>

definition sample_row :: "string \<Rightarrow> string \<Rightarrow> row" where
  "sample_row year_text title_text =
     \<lparr>year_span = Some year_text,
      link_tag = Some (title_text, Some ''/citations?p=1''),
      detail_lines = [''A Author'', ''Journal'']\<rparr>"

definition sample_pub :: "int \<Rightarrow> string \<Rightarrow> publication" where
  "sample_pub y t =
     \<lparr>year = y, title = t, link = ''https://scholar.google.com/citations?p=1'',
      venue = ''Journal''\<rparr>"

text \<open>
  A listing of three pages whose last rows have the years 2022, 2019 and 2017; every later page
  is empty.
\<close>

definition sample_listing :: "int \<Rightarrow> error + soup" where
  "sample_listing cstart =
     (if cstart = 0 then Inr [sample_row ''2023'' ''P1'', sample_row ''2022'' ''P2'']
      else if cstart = 20 then Inr [sample_row ''2020'' ''P3'', sample_row ''2019'' ''P4'']
      else if cstart = 40 then Inr [sample_row ''2018'' ''P5'', sample_row ''2017'' ''P6'']
      else Inr [])"

text \<open>A listing whose first page is empty.\<close>

definition empty_listing :: "int \<Rightarrow> error + soup" where
  "empty_listing cstart = Inr []"

definition sample_world :: "string \<Rightarrow> world" where
  "sample_world text = \<lparr>doc_text = Some text, stdout = [], requests = [], reads = 0, writes = []\<rparr>"

section \<open>Evaluation of the text primitives\<close>

lemmas text_defs =
  strip_def isspace_def isdigit_def digit_char_def ascii_digit_def py_int_def digit_val_def
  START_YEAR_def NL_def

lemmas row_defs =
  sample_row_def sample_pub_def year_of_row_def unparsable_def below_cutoff_def row_pub_def
  rows_before_cutoff_def

section \<open>Chunking\<close>

lemma chunk_3: "chunk items 3 = Inr (chunk_from items 3 0)"
  by (simp add: chunk_def)

lemma concat_chunk_from: "0 < sz \<Longrightarrow> concat (chunk_from items sz i) = drop i items"
proof (induction items sz i rule: chunk_from.induct)
  case (1 items sz i)
  show ?case
  proof (cases "i < length items")
    case True
    have "drop i items = take sz (drop i items) @ drop sz (drop i items)"
      by (rule append_take_drop_id [symmetric])
    also have "drop sz (drop i items) = drop (i + sz) items"
      by (simp add: add.commute)
    finally show ?thesis
      using True "1.prems" "1.IH" by (subst chunk_from.simps) simp
  next
    case False
    then show ?thesis by (subst chunk_from.simps) simp
  qed
qed

lemma chunk_from_nonempty:
  "c \<in> set (chunk_from items sz i) \<Longrightarrow> c \<noteq> [] \<and> length c \<le> sz"
proof (induction items sz i rule: chunk_from.induct)
  case (1 items sz i)
  from "1.prems" have guard: "0 < sz \<and> i < length items"
    by (subst (asm) chunk_from.simps) (simp split: if_splits)
  with "1.prems" have "c = take sz (drop i items) \<or> c \<in> set (chunk_from items sz (i + sz))"
    by (subst (asm) chunk_from.simps) simp
  then show ?case
    using guard "1.IH" by auto
qed

lemma chunk_from_full: "c \<in> set (butlast (chunk_from items sz i)) \<Longrightarrow> length c = sz"
proof (induction items sz i rule: chunk_from.induct)
  case (1 items sz i)
  from "1.prems" have guard: "0 < sz \<and> i < length items"
    by (subst (asm) chunk_from.simps) (simp split: if_splits)
  show ?case
  proof (cases "chunk_from items sz (i + sz) = []")
    case True
    with "1.prems" guard show ?thesis
      by (subst (asm) chunk_from.simps) simp
  next
    case False
    then have more: "i + sz < length items"
      by (subst (asm) chunk_from.simps) (simp split: if_splits)
    from "1.prems" guard False
    have "c = take sz (drop i items) \<or> c \<in> set (butlast (chunk_from items sz (i + sz)))"
      by (subst (asm) chunk_from.simps) simp
    then show ?thesis
      using guard more "1.IH" by auto
  qed
qed

lemma lookup_setdefault_append:
  "lookup_year (setdefault_append by_year pub) y =
     lookup_year by_year y @ (if year pub = y then [pub] else [])"
  by (induction by_year pub rule: setdefault_append.induct) (auto simp: lookup_year_def)

lemma lookup_foldl:
  "lookup_year (foldl setdefault_append by_year pubs) y =
     lookup_year by_year y @ filter (\<lambda>p. year p = y) pubs"
  by (induction pubs arbitrary: by_year) (auto simp: lookup_setdefault_append)

lemma lookup_group_by_year:
  "lookup_year (group_by_year pubs) y = filter (\<lambda>p. year p = y) pubs"
  using lookup_foldl [of "[]" pubs y] by (simp add: group_by_year_def lookup_year_def)

section \<open>Row parser\<close>

lemma py_int_error: "py_int s = Inl e \<Longrightarrow> e = ValueError"
  by (simp add: py_int_def split: if_splits)

lemma parse_loop_char:
  "parse_loop rs acc =
     (if list_ex unparsable (takeWhile (\<lambda>r. \<not> below_cutoff r) rs) then Inl ValueError
      else Inr (acc @ List.map_filter row_pub (takeWhile (\<lambda>r. \<not> below_cutoff r) rs)))"
proof (induction rs arbitrary: acc)
  case Nil
  show ?case by simp
next
  case (Cons r rs)
  show ?case
  proof (cases "year_span r")
    case None
    then have "\<not> below_cutoff r" "\<not> unparsable r" "row_pub r = None"
      by (simp_all add: year_of_row_def unparsable_def below_cutoff_def row_pub_def)
    with None show ?thesis
      by (simp add: Cons.IH)
  next
    case (Some span_text)
    show ?thesis
    proof (cases "isdigit (strip span_text)")
      case False
      with Some have "\<not> below_cutoff r" "\<not> unparsable r" "row_pub r = None"
        by (simp_all add: year_of_row_def unparsable_def below_cutoff_def row_pub_def)
      with Some False show ?thesis
        by (simp add: Cons.IH)
    next
      case True
      show ?thesis
      proof (cases "py_int (strip span_text)")
        case (Inl e)
        then have e: "e = ValueError" by (rule py_int_error)
        with Inl True Some have "\<not> below_cutoff r" "unparsable r"
          by (simp_all add: year_of_row_def unparsable_def below_cutoff_def)
        with Inl True Some e show ?thesis
          by simp
      next
        case (Inr y)
        with True Some have y: "year_of_row r = Some y" "\<not> unparsable r"
          by (simp_all add: year_of_row_def unparsable_def)
        show ?thesis
        proof (cases "y < START_YEAR")
          case below: True
          with y have "below_cutoff r" by (simp add: below_cutoff_def)
          with Inr True Some below show ?thesis
            by simp
        next
          case above: False
          with y have nb: "\<not> below_cutoff r" by (simp add: below_cutoff_def)
          show ?thesis
          proof (cases "link_tag r")
            case None
            with y have "row_pub r = None" by (simp add: row_pub_def)
            with None Inr True Some above nb y show ?thesis
              by (simp add: Cons.IH)
          next
            case tag: (Some a)
            obtain link_text href where a: "a = (link_text, href)" by (cases a)
            from tag a y have "row_pub r = Some \<lparr>year = y, title = strip link_text,
                     link = ''https://scholar.google.com'' @ (case href of None \<Rightarrow> [] | Some h \<Rightarrow> h),
                     venue = (if length (detail_lines r) > 1 then strip (detail_lines r ! 1) else [])\<rparr>"
              by (simp add: row_pub_def)
            with tag a Inr True Some above nb y show ?thesis
              by (simp add: Cons.IH Let_def)
          qed
        qed
      qed
    qed
  qed
qed

lemma parse_rows_char:
  "parse_rows soup =
     (if list_ex unparsable (rows_before_cutoff soup) then Inl ValueError
      else Inr (List.map_filter row_pub (rows_before_cutoff soup)))"
  by (simp add: parse_rows_def parse_loop_char rows_before_cutoff_def)

lemma parse_rows_source:
  assumes "parse_rows soup = Inr pubs" and "p \<in> set pubs"
  shows "\<exists>r \<in> set soup. \<not> below_cutoff r \<and> row_pub r = Some p"
proof -
  from assms(1) have "pubs = List.map_filter row_pub (takeWhile (\<lambda>r. \<not> below_cutoff r) soup)"
    by (simp add: parse_rows_char rows_before_cutoff_def split: if_splits)
  with assms(2) obtain r where "r \<in> set (takeWhile (\<lambda>r. \<not> below_cutoff r) soup)"
    and "row_pub r = Some p"
    by (auto simp: List.map_filter_def)
  then show ?thesis
    by (auto dest: set_takeWhileD)
qed

lemma parse_rows_years:
  assumes "parse_rows soup = Inr pubs" and "p \<in> set pubs"
  shows "START_YEAR \<le> year p"
proof -
  from parse_rows_source [OF assms] obtain r where "\<not> below_cutoff r" and "row_pub r = Some p"
    by blast
  then show ?thesis
    by (auto simp: below_cutoff_def row_pub_def split: option.splits)
qed

lemma parse_sample_rows:
  "parse_rows [sample_row ''2019'' ''New'', sample_row ''2017'' ''Old'', sample_row ''2020'' ''Late'']
     = Inr [sample_pub 2019 ''New'']"
  by (simp add: parse_rows_def sample_row_def sample_pub_def text_defs)

text \<open>
  C2, as stated, fails: a row with the numeric year 2017 and a title link qualifies
  structurally, and the parser does not return it, nor the row after it.
\<close>

theorem parse_rows_all_qualifying_counterexample:
  "row_pub (sample_row ''2017'' ''Old'') = Some (sample_pub 2017 ''Old'')
   \<and> row_pub (sample_row ''2020'' ''Late'') = Some (sample_pub 2020 ''Late'')
   \<and> parse_rows [sample_row ''2019'' ''New'', sample_row ''2017'' ''Old'',
        sample_row ''2020'' ''Late''] = Inr [sample_pub 2019 ''New'']"
  by (simp add: parse_sample_rows) (simp add: row_defs text_defs)

text \<open>
  C2, amended. The parser applies the cutoff itself: it stops at the first row whose numeric
  year is below 2018 and returns the records of the structurally qualifying rows before that row,
  in page order. (It raises ValueError instead when one of those rows has a year text that
  \<^verbatim>\<open>isdigit\<close> accepts and \<^verbatim>\<open>int()\<close> rejects.)
\<close>

theorem parse_rows_upto_cutoff:
  "parse_rows soup =
     (if list_ex unparsable (rows_before_cutoff soup) then Inl ValueError
      else Inr (List.map_filter row_pub (rows_before_cutoff soup)))"
  by (rule parse_rows_char)

theorem parse_rows_upto_cutoff_witness:
  "rows_before_cutoff [sample_row ''2019'' ''New'', sample_row ''2017'' ''Old'',
       sample_row ''2020'' ''Late''] = [sample_row ''2019'' ''New'']
   \<and> parse_rows [sample_row ''2019'' ''New'', sample_row ''2017'' ''Old'',
       sample_row ''2020'' ''Late''] = Inr [sample_pub 2019 ''New'']"
proof -
  have rows: "rows_before_cutoff [sample_row ''2019'' ''New'', sample_row ''2017'' ''Old'',
       sample_row ''2020'' ''Late''] = [sample_row ''2019'' ''New'']"
    by (simp add: row_defs text_defs)
  have "\<not> unparsable (sample_row ''2019'' ''New'')"
    and "row_pub (sample_row ''2019'' ''New'') = Some (sample_pub 2019 ''New'')"
    by (simp_all add: row_defs text_defs)
  then show ?thesis
    using parse_rows_upto_cutoff [of "[sample_row ''2019'' ''New'', sample_row ''2017'' ''Old'',
       sample_row ''2020'' ''Late'']"]
    by (simp add: rows)
qed

text \<open>
  C9, as stated, fails: a row whose title link has only white space as its text gives a record
  with an empty title.
\<close>

theorem parse_rows_title_counterexample:
  "parse_rows [sample_row ''2020'' '' ''] = Inr [sample_pub 2020 []]
   \<and> title (sample_pub 2020 []) = []"
  by (simp add: parse_rows_def sample_row_def sample_pub_def text_defs)

text \<open>
  C9, amended. Every record that the parser returns comes from a row that has a title link
  element; its title is the stripped text of that element, which may be empty. Rows without
  the element give no record.
\<close>

theorem parse_rows_title_link:
  assumes "parse_rows soup = Inr pubs" and "p \<in> set pubs"
  shows "\<exists>r \<in> set soup. \<exists>link_text href.
           link_tag r = Some (link_text, href) \<and> title p = strip link_text"
proof -
  from parse_rows_source [OF assms] obtain r where r: "r \<in> set soup" "row_pub r = Some p"
    by blast
  from r(2) obtain link_text href where "link_tag r = Some (link_text, href)"
    and "title p = strip link_text"
    by (auto simp: row_pub_def split: option.splits)
  with r(1) show ?thesis by blast
qed

theorem parse_rows_title_link_witness:
  "parse_rows [sample_row ''2021'' '' T '', \<lparr>year_span = Some ''2021'', link_tag = None,
        detail_lines = []\<rparr>] = Inr [sample_pub 2021 ''T'']
   \<and> (\<exists>r \<in> set [sample_row ''2021'' '' T '', \<lparr>year_span = Some ''2021'', link_tag = None,
        detail_lines = []\<rparr>]. \<exists>link_text href.
         link_tag r = Some (link_text, href) \<and> title (sample_pub 2021 ''T'') = strip link_text)"
proof -
  have run: "parse_rows [sample_row ''2021'' '' T '', \<lparr>year_span = Some ''2021'',
        link_tag = None, detail_lines = []\<rparr>] = Inr [sample_pub 2021 ''T'']"
    by (simp add: parse_rows_def sample_row_def sample_pub_def text_defs)
  have "sample_pub 2021 ''T'' \<in> set [sample_pub 2021 ''T'']"
    by simp
  from parse_rows_title_link [OF run this] run show ?thesis
    by blast
qed

section \<open>Pagination crawler\<close>

lemma crawl_loop_years:
  assumes run: "crawl_loop fetch_page all_pubs cstart requested = Some res"
    and "\<forall>p \<in> set all_pubs. START_YEAR \<le> year p"
  shows "\<forall>pubs. fst res = Inr pubs \<longrightarrow> (\<forall>p \<in> set pubs. START_YEAR \<le> year p)"
  using assms(2)
proof (induction rule: crawl_loop.raw_induct [OF _ run])
  case (1 crawl fetch_page all_pubs cstart requested res)
  note step = "1.hyps" and inv = "1.prems" and IH = "1.IH"
  show ?case
  proof (cases "fetch_page cstart")
    case (Inl e)
    with step show ?thesis by auto
  next
    case soup: (Inr soup)
    show ?thesis
    proof (cases "parse_rows soup")
      case (Inl e)
      with soup step show ?thesis by auto
    next
      case page: (Inr page)
      have ok: "\<forall>p \<in> set (all_pubs @ page). START_YEAR \<le> year p"
        using inv parse_rows_years [OF page] by auto
      show ?thesis
        using step IH [of fetch_page "all_pubs @ page" "cstart + 20" "requested @ [cstart]" res]
          ok inv
        by (auto simp: soup page split: if_splits)
    qed
  qed
qed

lemma page_recordsD:
  assumes "page_records fetch_page k = Some pubs"
  shows "\<exists>soup. fetch_page (20 * int k) = Inr soup \<and> parse_rows soup = Inr pubs"
  using assms by (auto simp: page_records_def split: sum.splits)

lemma crawl_loop_run:
  assumes "\<forall>k<n. \<exists>pubs. page_records fetch_page (m + k) = Some pubs \<and> pubs \<noteq> []"
    and "page_records fetch_page (m + n) = Some []"
  shows "crawl_loop fetch_page acc (20 * int m) reqs =
           Some (Inr (acc @ concat (List.map_filter (page_records fetch_page) [m..<m + n])),
                 reqs @ map (\<lambda>k. 20 * int k) [m..<Suc (m + n)])"
  using assms
proof (induction n arbitrary: m acc reqs)
  case 0
  from page_recordsD [of fetch_page m "[]"] "0.prems"(2)
  obtain soup where "fetch_page (20 * int m) = Inr soup" and "parse_rows soup = Inr []"
    by auto
  then show ?case
    by (subst crawl_loop.simps) simp
next
  case (Suc n)
  from Suc.prems(1) obtain pubs where rec: "page_records fetch_page m = Some pubs"
    and ne: "pubs \<noteq> []"
    by (metis add.right_neutral zero_less_Suc)
  from page_recordsD [OF rec]
  obtain soup where soup: "fetch_page (20 * int m) = Inr soup" and page: "parse_rows soup = Inr pubs"
    by auto
  from ne have "last pubs \<in> set pubs" by simp
  from parse_rows_years [OF page this] have last_ok: "\<not> year (last pubs) < START_YEAR"
    by simp
  have later: "\<forall>k<n. \<exists>pubs. page_records fetch_page (Suc m + k) = Some pubs \<and> pubs \<noteq> []"
  proof (intro allI impI)
    fix k
    assume "k < n"
    then have "Suc k < Suc n" by simp
    with Suc.prems(1) have "\<exists>pubs. page_records fetch_page (m + Suc k) = Some pubs \<and> pubs \<noteq> []"
      by blast
    then show "\<exists>pubs. page_records fetch_page (Suc m + k) = Some pubs \<and> pubs \<noteq> []"
      by simp
  qed
  from Suc.prems(2) have stop: "page_records fetch_page (Suc m + n) = Some []"
    by simp
  have next_offset: "20 * int m + 20 = 20 * int (Suc m)"
    by simp
  have range1: "[m..<m + Suc n] = m # [Suc m..<Suc m + n]"
    by (simp add: upt_conv_Cons)
  have range2: "[m..<Suc (m + Suc n)] = m # [Suc m..<Suc (Suc m + n)]"
    by (simp add: upt_conv_Cons)
  have "crawl_loop fetch_page acc (20 * int m) reqs =
          crawl_loop fetch_page (acc @ pubs) (20 * int (Suc m)) (reqs @ [20 * int m])"
    by (subst crawl_loop.simps) (simp add: soup page ne last_ok next_offset del: of_nat_Suc)
  also have "\<dots> =
      Some (Inr ((acc @ pubs) @ concat (List.map_filter (page_records fetch_page) [Suc m..<Suc m + n])),
            (reqs @ [20 * int m]) @ map (\<lambda>k. 20 * int k) [Suc m..<Suc (Suc m + n)])"
    by (rule Suc.IH [OF later stop])
  finally show ?case
    by (simp only: range1 range2 List.map_filter_simps rec option.case concat.simps list.map
        append_assoc append_Cons append_Nil)
qed

lemma crawl_sample_listing:
  "fetch_publications sample_listing =
     Some (Inr [sample_pub 2023 ''P1'', sample_pub 2022 ''P2'', sample_pub 2020 ''P3'',
                sample_pub 2019 ''P4'', sample_pub 2018 ''P5''],
           [0, 20, 40, 60])"
proof -
  have p0: "parse_rows [sample_row ''2023'' ''P1'', sample_row ''2022'' ''P2'']
      = Inr [sample_pub 2023 ''P1'', sample_pub 2022 ''P2'']"
    by (simp add: parse_rows_def sample_row_def sample_pub_def text_defs)
  have p1: "parse_rows [sample_row ''2020'' ''P3'', sample_row ''2019'' ''P4'']
      = Inr [sample_pub 2020 ''P3'', sample_pub 2019 ''P4'']"
    by (simp add: parse_rows_def sample_row_def sample_pub_def text_defs)
  have p2: "parse_rows [sample_row ''2018'' ''P5'', sample_row ''2017'' ''P6'']
      = Inr [sample_pub 2018 ''P5'']"
    by (simp add: parse_rows_def sample_row_def sample_pub_def text_defs)
  have p3: "parse_rows [] = Inr []"
    by (simp add: parse_rows_def)
  show ?thesis
    unfolding fetch_publications_def
    apply (subst crawl_loop.simps, simp add: sample_listing_def p0 sample_pub_def START_YEAR_def)
    apply (subst crawl_loop.simps, simp add: sample_listing_def p1 sample_pub_def START_YEAR_def)
    apply (subst crawl_loop.simps, simp add: sample_listing_def p2 sample_pub_def START_YEAR_def)
    apply (subst crawl_loop.simps, simp add: sample_listing_def p3 sample_pub_def START_YEAR_def)
    done
qed

text \<open>
  C4. Whenever the crawl returns a list of records, every record in it has a year of at least
  2018, whatever pages the listing returns.
\<close>

theorem fetch_publications_cutoff:
  assumes "fetch_publications fetch_page = Some (Inr pubs, requested)" and "p \<in> set pubs"
  shows "2018 \<le> year p"
proof -
  from assms(1) have "crawl_loop fetch_page [] 0 [] = Some (Inr pubs, requested)"
    by (simp add: fetch_publications_def)
  from crawl_loop_years [OF this] assms(2) show ?thesis
    by (simp add: START_YEAR_def)
qed

theorem fetch_publications_cutoff_witness:
  "fetch_publications sample_listing =
     Some (Inr [sample_pub 2023 ''P1'', sample_pub 2022 ''P2'', sample_pub 2020 ''P3'',
                sample_pub 2019 ''P4'', sample_pub 2018 ''P5''],
           [0, 20, 40, 60])
   \<and> 2018 \<le> year (sample_pub 2018 ''P5'')"
proof -
  have "sample_pub 2018 ''P5'' \<in> set [sample_pub 2023 ''P1'', sample_pub 2022 ''P2'',
      sample_pub 2020 ''P3'', sample_pub 2019 ''P4'', sample_pub 2018 ''P5'']"
    by simp
  from fetch_publications_cutoff [OF crawl_sample_listing this] crawl_sample_listing
  show ?thesis by simp
qed

lemma stop_test_dead:
  assumes "parse_rows soup = Inr pubs" and "pubs \<noteq> []"
  shows "\<not> year (last pubs) < START_YEAR"
proof -
  from assms(2) have "last pubs \<in> set pubs" by simp
  from parse_rows_years [OF assms(1) this] show ?thesis by simp
qed

text \<open>
  What the loop does in general: it stops at the first page from which the parser returns no
  record. If pages \<open>0, \<dots>, n - 1\<close> each give at least one record and page \<open>n\<close> gives
  none, the crawl requests exactly the offsets \<open>0, 20, \<dots>, 20 n\<close> and returns the records of
  pages \<open>0, \<dots>, n - 1\<close> in order.
\<close>

lemma crawl_stops_at_empty_parse:
  assumes "\<forall>k<n. \<exists>pubs. page_records fetch_page k = Some pubs \<and> pubs \<noteq> []"
    and "page_records fetch_page n = Some []"
  shows "fetch_publications fetch_page =
           Some (Inr (concat (List.map_filter (page_records fetch_page) [0..<n])),
                 map (\<lambda>k. 20 * int k) [0..<Suc n])"
  using crawl_loop_run [of n fetch_page 0 "[]" "[]"] assms
  by (simp add: fetch_publications_def)

text \<open>
  C3. The code does not stop at the third page. On a listing whose pages have last rows of the
  years 2022, 2019 and 2017, where the third page has a row of 2018 before the row of 2017,
  the crawl keeps the records of 2018 and later and then requests a fourth page (offset 60):
  the parser has already cut the row of 2017, so the test of the last record's year in
  \<^verbatim>\<open>fetch_publications\<close> never holds (lemma \<open>stop_test_dead\<close>).
\<close>

theorem fetch_publications_requests_fourth_page:
  "map (last_row_year sample_listing) [0, 1, 2] = [Some 2022, Some 2019, Some 2017]
   \<and> fetch_publications sample_listing =
       Some (Inr [sample_pub 2023 ''P1'', sample_pub 2022 ''P2'', sample_pub 2020 ''P3'',
                  sample_pub 2019 ''P4'', sample_pub 2018 ''P5''],
             [0, 20, 40, 60])"
  by (simp add: crawl_sample_listing)
    (simp add: last_row_year_def sample_listing_def row_defs text_defs)

section \<open>Searching a text\<close>

lemma py_find_None_Cons:
  "py_find m (x # xs) = None \<longleftrightarrow> \<not> prefix m (x # xs) \<and> py_find m xs = None"
  by simp

lemma no_straddle:
  assumes "U \<noteq> []" and "\<not> prefix m U" and "Y \<noteq> []" and "hd Y \<notin> set (tl m)"
  shows "\<not> prefix m (U @ Y)"
proof
  assume "prefix m (U @ Y)"
  with assms(2) obtain us where m: "m = U @ us" and us: "prefix us Y"
    by (auto simp: prefix_append)
  from m assms(2) have "us \<noteq> []" by auto
  with us assms(3) have "hd us = hd Y"
    by (cases us; cases Y) auto
  moreover from m assms(1) \<open>us \<noteq> []\<close> have "hd us \<in> set (tl m)"
    by (cases U) auto
  ultimately show False using assms(4) by simp
qed

lemma py_find_append_None:
  assumes "py_find m X = None" and "py_find m Y = None" and "Y \<noteq> []"
    and "hd Y \<notin> set (tl m)"
  shows "py_find m (X @ Y) = None"
  using assms(1)
proof (induction X)
  case Nil
  with assms(2) show ?case by simp
next
  case (Cons x X)
  then have np: "\<not> prefix m (x # X)" and rest: "py_find m X = None"
    by (simp_all split: if_splits)
  from no_straddle [OF _ np assms(3,4)] have "\<not> prefix m ((x # X) @ Y)"
    by simp
  with Cons.IH [OF rest] show ?case by simp
qed

lemma py_find_at:
  assumes "m \<noteq> []" and "hd m \<notin> set (tl m)" and "py_find m X = None"
  shows "py_find m (X @ m @ R) = Some (length X)"
  using assms(3)
proof (induction X)
  case Nil
  from assms(1) obtain c cs where "m @ R = c # cs"
    by (cases m) auto
  moreover have "prefix m (m @ R)" by simp
  ultimately show ?case by simp
next
  case (Cons x X)
  then have np: "\<not> prefix m (x # X)" and rest: "py_find m X = None"
    by (simp_all split: if_splits)
  from assms(1) have "m @ R \<noteq> []" "hd (m @ R) = hd m"
    by simp_all
  with no_straddle [OF _ np, of "m @ R"] assms(2) have "\<not> prefix m ((x # X) @ m @ R)"
    by simp
  with Cons.IH [OF rest] show ?case by simp
qed

lemma py_find_skip:
  assumes "m \<noteq> []" and "hd m \<notin> set S" and "py_find m Y = None"
  shows "py_find m (S @ Y) = None"
  using assms(2)
proof (induction S)
  case Nil
  with assms(3) show ?case by simp
next
  case (Cons s S)
  from assms(1) Cons.prems have "\<not> prefix m (s # S @ Y)"
    by (cases m) auto
  with Cons show ?case by simp
qed

lemma marker_start_head:
  "MARKER_START \<noteq> []" "hd MARKER_START = CHR ''<''" "CHR ''<'' \<notin> set (tl MARKER_START)"
  by (simp_all add: MARKER_START_def)

lemma marker_end_head:
  "MARKER_END \<noteq> []" "hd MARKER_END = CHR ''<''" "CHR ''<'' \<notin> set (tl MARKER_END)"
  by (simp_all add: MARKER_END_def)

lemma marker_end_not_prefix: "\<not> prefix MARKER_END (MARKER_START @ Y)"
  by (simp add: MARKER_END_def MARKER_START_def)

lemma marker_end_after_start:
  assumes "py_find MARKER_END old = None"
  shows "py_find MARKER_END (MARKER_START @ old) = None"
proof -
  have split: "MARKER_START = CHR ''<'' # tl MARKER_START"
    by (simp add: MARKER_START_def)
  have "py_find MARKER_END (tl MARKER_START @ old) = None"
    by (rule py_find_skip [OF _ _ assms]) (simp_all add: marker_end_head marker_start_head)
  moreover have "\<not> prefix MARKER_END (CHR ''<'' # tl MARKER_START @ old)"
    using marker_end_not_prefix [of old] split by (metis append_Cons)
  ultimately have "py_find MARKER_END (CHR ''<'' # tl MARKER_START @ old) = None"
    by simp
  with split show ?thesis by (metis append_Cons)
qed

section \<open>Document splicer\<close>

lemma inject_markers:
  assumes "py_find MARKER_START A = None" and "py_find MARKER_END A = None"
    and "py_find MARKER_END old = None"
  shows "inject_html (A @ MARKER_START @ old @ MARKER_END @ B) F = Inr (A @ F @ B)"
proof -
  let ?doc = "A @ MARKER_START @ old @ MARKER_END @ B"
  have start: "py_find MARKER_START ?doc = Some (length A)"
    using marker_start_head assms(1) by (intro py_find_at) simp_all
  have "py_find MARKER_END (A @ MARKER_START @ old) = None"
    by (rule py_find_append_None [OF assms(2) marker_end_after_start [OF assms(3)]])
      (simp_all add: marker_start_head marker_end_head)
  then have "py_find MARKER_END ((A @ MARKER_START @ old) @ MARKER_END @ B)
      = Some (length (A @ MARKER_START @ old))"
    using marker_end_head by (intro py_find_at) simp_all
  then have stop: "py_find MARKER_END ?doc = Some (length A + length MARKER_START + length old)"
    by simp
  have "drop (length A + length MARKER_START + length old + length MARKER_END) ?doc = B"
    by simp
  then show ?thesis
    by (simp add: inject_html_def py_in_def py_index_def start stop)
qed

text \<open>
  C5. If the prefix \<open>A\<close> contains no marker literal and the infix \<open>old\<close> does not contain
  the end marker, then splicing \<open>F\<close> into \<open>A + MARKER_START + old + MARKER_END + B\<close> gives
  exactly \<open>A + F + B\<close>. (The claim also asks that \<open>old\<close> has no start marker and that \<open>B\<close>
  has no marker; the result does not need that.)
\<close>

theorem inject_html_replaces_marked_region:
  assumes "\<not> py_in MARKER_START A" and "\<not> py_in MARKER_END A" and "\<not> py_in MARKER_END old"
  shows "inject_html (A @ MARKER_START @ old @ MARKER_END @ B) F = Inr (A @ F @ B)"
  using assms by (intro inject_markers) (simp_all add: py_in_def)

theorem inject_html_replaces_marked_region_witness:
  "\<not> py_in MARKER_START ''<body>'' \<and> \<not> py_in MARKER_END ''<body>''
   \<and> \<not> py_in MARKER_END ''old''
   \<and> inject_html (''<body>'' @ MARKER_START @ ''old'' @ MARKER_END @ ''</body>'') ''NEW''
       = Inr ''<body>NEW</body>''"
proof -
  have a: "\<not> py_in MARKER_START ''<body>''" "\<not> py_in MARKER_END ''<body>''"
    by (simp_all add: py_in_def MARKER_START_def MARKER_END_def)
  have b: "\<not> py_in MARKER_END ''old''"
    by (simp add: py_in_def MARKER_END_def)
  from inject_html_replaces_marked_region [OF a b, of "''</body>''" "''NEW''"] a b
  show ?thesis by simp
qed

section \<open>Renderer\<close>

lemma join_Cons: "join sep (x # xs) = x @ concat (map (\<lambda>p. sep @ p) xs)"
  by (induction xs arbitrary: x) simp_all

lemma build_html_shape:
  "build_html pubs = MARKER_START @ concat (map (\<lambda>p. NL @ p) (body_parts pubs)) @ NL
     @ MARKER_END @ NL"
  by (simp add: build_html_def build_parts_def body_parts_def Let_def join_Cons)





section \<open>Records rendered under a year\<close>

lemma is_card_render_pub: "is_card (render_pub pub)"
  by (simp add: is_card_def render_pub_def Let_def)

lemma cards_render_group: "filter is_card (render_group grp) = map render_pub grp"
proof -
  have "filter is_card (map render_pub grp) = map render_pub grp"
    by (simp add: filter_map comp_def is_card_render_pub)
  then show ?thesis
    by (simp add: render_group_def is_card_def)
qed

lemma cards_render_groups:
  "filter is_card (concat (map render_group cs)) = map render_pub (concat cs)"
  by (induction cs) (simp_all add: cards_render_group)

lemma render_year_rows:
  "\<exists>head. render_year (group_by_year pubs) y =
            head @ concat (map render_group (chunk_from (filter (\<lambda>p. year p = y) pubs) 3 0))
        \<and> filter is_card head = []"
proof -
  let ?head = "[''  <div class=\"bigtitle\">'' @ str_int y @ ''</div>'',
      ''  <div class=\"spacer\"></div>'']"
  have "render_year (group_by_year pubs) y =
      ?head @ concat (map render_group (chunk_from (filter (\<lambda>p. year p = y) pubs) 3 0))"
    by (simp add: render_year_def lookup_group_by_year)
  moreover have "filter is_card ?head = []"
    by (simp add: is_card_def)
  ultimately show ?thesis by blast
qed

lemma cards_render_year:
  "filter is_card (render_year (group_by_year pubs) y)
     = map render_pub (filter (\<lambda>p. year p = y) pubs)"
proof -
  from render_year_rows [of pubs y] obtain head where
    "render_year (group_by_year pubs) y =
       head @ concat (map render_group (chunk_from (filter (\<lambda>p. year p = y) pubs) 3 0))"
    and "filter is_card head = []"
    by blast
  then show ?thesis
    by (simp add: cards_render_groups concat_chunk_from)
qed

lemma keys_setdefault_append:
  "map fst (setdefault_append by_year pub) =
     (if year pub \<in> fst ` set by_year then map fst by_year else map fst by_year @ [year pub])"
  by (induction by_year pub rule: setdefault_append.induct) auto

lemma keys_foldl:
  "distinct (map fst by_year) \<Longrightarrow>
     distinct (map fst (foldl setdefault_append by_year pubs))
     \<and> set (map fst (foldl setdefault_append by_year pubs)) = fst ` set by_year \<union> year ` set pubs"
proof (induction pubs arbitrary: by_year)
  case Nil
  then show ?case by simp
next
  case (Cons pub pubs)
  have d: "distinct (map fst (setdefault_append by_year pub))"
    using Cons.prems by (simp add: keys_setdefault_append)
  have s: "fst ` set (setdefault_append by_year pub) = insert (year pub) (fst ` set by_year)"
    using keys_setdefault_append [of by_year pub]
    by (metis (no_types, lifting) Un_insert_right append_Nil2 insert_absorb list.set(2)
        list.set_map set_append)
  from Cons.IH [OF d] s show ?case
    by auto
qed

lemma years_desc_keys:
  "distinct (years_desc (group_by_year pubs))
   \<and> set (years_desc (group_by_year pubs)) = year ` set pubs"
  using keys_foldl [of "[]" pubs] by (simp add: years_desc_def group_by_year_def)

lemma cards_concat:
  "filter is_card (concat (map f ys)) = concat (map (\<lambda>y. filter is_card (f y)) ys)"
  by (induction ys) simp_all

lemma cards_build_parts:
  "filter is_card (build_parts pubs)
     = concat (map (\<lambda>y. map render_pub (filter (\<lambda>p. year p = y) pubs))
         (years_desc (group_by_year pubs)))"
proof -
  have "\<not> is_card MARKER_START" "\<not> is_card MARKER_END" "\<not> is_card []"
    by (simp_all add: is_card_def MARKER_START_def MARKER_END_def)
  then show ?thesis
    by (simp add: build_parts_def Let_def cards_concat cards_render_year)
qed

text \<open>
  C10. The chunks of \<^verbatim>\<open>chunk(items, 3)\<close>, concatenated in order, are the original list;
  no chunk is empty or longer than 3, and every chunk but the last has exactly 3 elements.
  Hence the renderer neither drops, duplicates nor reorders records within a year: the parts
  that \<^verbatim>\<open>build_html\<close> emits for a year are a heading followed by one row container for each
  chunk of that year's records, and the record cards among them are exactly the cards of the
  records of that year, each once and in the original order. Every year of the input has
  exactly one such group, so the cards of the whole fragment are those of all records, year by
  year.
\<close>

theorem chunk_lossless_partition:
  "(\<exists>cs. chunk items 3 = Inr cs \<and> concat cs = items
        \<and> (\<forall>c \<in> set cs. c \<noteq> [] \<and> length c \<le> 3)
        \<and> (\<forall>c \<in> set (butlast cs). length c = 3))
   \<and> (\<exists>head. render_year (group_by_year pubs) y =
            head @ concat (map render_group (chunk_from (filter (\<lambda>p. year p = y) pubs) 3 0))
        \<and> filter is_card head = [])
   \<and> filter is_card (render_year (group_by_year pubs) y)
       = map render_pub (filter (\<lambda>p. year p = y) pubs)
   \<and> distinct (years_desc (group_by_year pubs))
   \<and> set (years_desc (group_by_year pubs)) = year ` set pubs
   \<and> build_html pubs = join NL (build_parts pubs)
   \<and> filter is_card (build_parts pubs)
       = concat (map (\<lambda>y. map render_pub (filter (\<lambda>p. year p = y) pubs))
           (years_desc (group_by_year pubs)))"
proof -
  have "\<exists>cs. chunk items 3 = Inr cs \<and> concat cs = items
        \<and> (\<forall>c \<in> set cs. c \<noteq> [] \<and> length c \<le> 3)
        \<and> (\<forall>c \<in> set (butlast cs). length c = 3)"
    using chunk_from_nonempty [of _ items 3 0] chunk_from_full [of _ items 3 0]
    by (simp add: chunk_3 concat_chunk_from)
  with render_year_rows [of pubs y] cards_render_year [of pubs y] years_desc_keys [of pubs]
    cards_build_parts [of pubs]
  show ?thesis
    by (simp only: build_html_def simp_thms)
qed

theorem chunk_lossless_partition_witness:
  "chunk [1, 2, 3, 4, 5, 6, 7 :: nat] 3 = Inr [[1, 2, 3], [4, 5, 6], [7]]
   \<and> filter is_card (render_year (group_by_year [sample_pub 2020 ''a'', sample_pub 2019 ''b'',
         sample_pub 2020 ''c'', sample_pub 2020 ''d'', sample_pub 2020 ''e'']) 2020)
      = [render_pub (sample_pub 2020 ''a''), render_pub (sample_pub 2020 ''c''),
         render_pub (sample_pub 2020 ''d''), render_pub (sample_pub 2020 ''e'')]
   \<and> years_desc (group_by_year [sample_pub 2020 ''a'', sample_pub 2019 ''b'',
         sample_pub 2020 ''c'', sample_pub 2020 ''d'', sample_pub 2020 ''e'']) = [2020, 2019]
   \<and> filter is_card (build_parts [sample_pub 2020 ''a'', sample_pub 2019 ''b'',
         sample_pub 2020 ''c'', sample_pub 2020 ''d'', sample_pub 2020 ''e''])
      = [render_pub (sample_pub 2020 ''a''), render_pub (sample_pub 2020 ''c''),
         render_pub (sample_pub 2020 ''d''), render_pub (sample_pub 2020 ''e''),
         render_pub (sample_pub 2019 ''b'')]"
proof -
  have chunks: "chunk_from [1, 2, 3, 4, 5, 6, 7 :: nat] 3 0 = [[1, 2, 3], [4, 5, 6], [7]]"
    by (simp add: chunk_from.simps)
  have years: "years_desc (group_by_year [sample_pub 2020 ''a'', sample_pub 2019 ''b'',
         sample_pub 2020 ''c'', sample_pub 2020 ''d'', sample_pub 2020 ''e'']) = [2020, 2019]"
    by (simp add: years_desc_def group_by_year_def sample_pub_def)
  from chunk_lossless_partition [of "[1, 2, 3, 4, 5, 6, 7 :: nat]"
      "[sample_pub 2020 ''a'', sample_pub 2019 ''b'', sample_pub 2020 ''c'',
        sample_pub 2020 ''d'', sample_pub 2020 ''e'']" 2020]
  have "filter is_card (render_year (group_by_year [sample_pub 2020 ''a'', sample_pub 2019 ''b'',
         sample_pub 2020 ''c'', sample_pub 2020 ''d'', sample_pub 2020 ''e'']) 2020)
      = map render_pub (filter (\<lambda>p. year p = 2020) [sample_pub 2020 ''a'', sample_pub 2019 ''b'',
         sample_pub 2020 ''c'', sample_pub 2020 ''d'', sample_pub 2020 ''e''])"
    and "filter is_card (build_parts [sample_pub 2020 ''a'', sample_pub 2019 ''b'',
         sample_pub 2020 ''c'', sample_pub 2020 ''d'', sample_pub 2020 ''e''])
       = concat (map (\<lambda>y. map render_pub (filter (\<lambda>p. year p = y) [sample_pub 2020 ''a'',
           sample_pub 2019 ''b'', sample_pub 2020 ''c'', sample_pub 2020 ''d'',
           sample_pub 2020 ''e'']))
           (years_desc (group_by_year [sample_pub 2020 ''a'', sample_pub 2019 ''b'',
         sample_pub 2020 ''c'', sample_pub 2020 ''d'', sample_pub 2020 ''e''])))"
    by blast+
  moreover have "year (sample_pub 2020 t) = 2020" "year (sample_pub 2019 t) = 2019" for t
    by (simp_all add: sample_pub_def)
  ultimately show ?thesis
    using chunks by (simp add: chunk_3 years)
qed

section \<open>The fragment has no marker inside\<close>

lemma nco_append:
  "no_comment_open xs \<Longrightarrow> no_comment_open ys \<Longrightarrow> no_comment_open (xs @ ys)"
proof (induction xs rule: no_comment_open.induct)
  case 1
  then show ?case by simp
next
  case (2 c)
  then show ?case by (cases ys) simp_all
next
  case (3 c d cs)
  then show ?case by simp
qed

lemma nco_no_lt: "CHR ''<'' \<notin> set s \<Longrightarrow> no_comment_open s"
  by (induction s rule: no_comment_open.induct) auto

lemma nco_concat: "(\<forall>p \<in> set ps. no_comment_open p) \<Longrightarrow> no_comment_open (concat ps)"
  by (induction ps) (simp_all add: nco_append)

lemma escape_no_lt: "CHR ''<'' \<notin> set (escape s)"
  by (auto simp: escape_def escape_char_def split: if_splits)

lemma nco_escape: "no_comment_open (escape s)"
  by (rule nco_no_lt [OF escape_no_lt])

lemma digit_of_no_lt: "d < 10 \<Longrightarrow> digit_of d \<noteq> CHR ''<''"
proof
  assume d: "d < 10" and "digit_of d = CHR ''<''"
  then have "(of_char (digit_of d) :: nat) = of_char CHR ''<''"
    by simp
  then have "(48 + d) mod 256 = 60"
    by (simp add: digit_of_def)
  with d show False by simp
qed

lemma str_nat_no_lt: "CHR ''<'' \<notin> set (str_nat n)"
proof (induction n rule: str_nat.induct)
  case (1 n)
  show ?case
  proof (cases "n < 10")
    case True
    then show ?thesis
      using digit_of_no_lt [of n] by (subst str_nat.simps) auto
  next
    case False
    have "n mod 10 < 10" by simp
    from digit_of_no_lt [OF this] False "1.IH" show ?thesis
      by (subst str_nat.simps) auto
  qed
qed

lemma str_int_no_lt: "CHR ''<'' \<notin> set (str_int y)"
  by (simp add: str_int_def str_nat_no_lt)

lemma nco_str_int: "no_comment_open (str_int y)"
  by (rule nco_no_lt [OF str_int_no_lt])

lemma nco_render_pub: "no_comment_open (render_pub pub)"
  unfolding render_pub_def Let_def
  by (intro nco_append) (simp_all add: nco_escape NL_def)

lemma nco_render_group: "p \<in> set (render_group grp) \<Longrightarrow> no_comment_open p"
  by (auto simp: render_group_def nco_render_pub)

lemma nco_render_year:
  assumes "p \<in> set (render_year by_year y)"
  shows "no_comment_open p"
proof -
  have heading: "no_comment_open (''  <div class=\"bigtitle\">'' @ str_int y @ ''</div>'')"
    by (intro nco_append) (simp_all add: nco_str_int)
  have spacer: "no_comment_open ''  <div class=\"spacer\"></div>''"
    by simp
  from assms have "p = ''  <div class=\"bigtitle\">'' @ str_int y @ ''</div>''
      \<or> p = ''  <div class=\"spacer\"></div>''
      \<or> (\<exists>grp. p \<in> set (render_group grp))"
    unfolding render_year_def by auto
  with heading spacer nco_render_group show ?thesis
    by blast
qed

lemma nco_body_parts: "p \<in> set (body_parts pubs) \<Longrightarrow> no_comment_open p"
  by (auto simp: body_parts_def Let_def dest: nco_render_year)

lemma nco_body: "no_comment_open (concat (map (\<lambda>p. NL @ p) (body_parts pubs)) @ NL)"
proof -
  have nl: "no_comment_open NL" by (simp add: NL_def)
  have "\<forall>q \<in> set (map (\<lambda>p. NL @ p) (body_parts pubs)). no_comment_open q"
    by (auto intro: nco_append nl nco_body_parts)
  then show ?thesis
    by (intro nco_append nco_concat nl)
qed

lemma py_find_nco:
  "no_comment_open s \<Longrightarrow> py_find (CHR ''<'' # CHR ''!'' # m) s = None"
  by (induction s rule: no_comment_open.induct) auto

lemma marker_end_not_in_body:
  "py_find MARKER_END (concat (map (\<lambda>p. NL @ p) (body_parts pubs)) @ NL) = None"
proof -
  have "MARKER_END = CHR ''<'' # CHR ''!'' # drop 2 MARKER_END"
    by (simp add: MARKER_END_def)
  then show ?thesis
    using py_find_nco [OF nco_body, of "drop 2 MARKER_END" pubs] by simp
qed

lemma splice_again:
  assumes "py_find MARKER_START A = None" and "py_find MARKER_END A = None"
  shows "inject_html (A @ build_html pubs @ B) (build_html pubs)
           = Inr (A @ build_html pubs @ NL @ B)"
  using inject_markers [OF assms marker_end_not_in_body, of pubs "NL @ B" "build_html pubs"]
  by (simp add: build_html_shape)

lemma py_find_append_Some: "py_find m X \<noteq> None \<Longrightarrow> py_find m (X @ Y) \<noteq> None"
proof (induction X)
  case Nil
  then show ?case by (cases Y) (simp_all split: if_splits)
next
  case (Cons x X)
  show ?case
  proof (cases "prefix m (x # X)")
    case True
    then have "prefix m ((x # X) @ Y)" by (rule prefix_prefix)
    then show ?thesis by simp
  next
    case False
    with Cons.prems have "py_find m X \<noteq> None" by auto
    from Cons.IH [OF this] show ?thesis by auto
  qed
qed

lemma py_find_take_None:
  assumes "py_find m D = None"
  shows "py_find m (take i D) = None"
proof (rule ccontr)
  assume "py_find m (take i D) \<noteq> None"
  from py_find_append_Some [OF this, of "drop i D"] assms show False
    by simp
qed

lemma inject_fallback:
  assumes "py_find MARKER_START D = None" and "py_find anchor D = Some idx"
  shows "inject_html D F = Inr (take idx D @ F @ NL @ drop idx D)"
  using assms by (simp add: inject_html_def py_in_def py_index_def)

text \<open>
  What a second splice does in general: the rendered fragment ends with a newline after the end
  marker, and a splice replaces the text up to the end marker only, so splicing the same fragment
  again gives the result of the first splice with one more newline right after the fragment.
  This holds on the marker path (a document \<open>A + MARKER_START + old + MARKER_END + B\<close> where
  \<open>A\<close> has no marker and \<open>old\<close> has no end marker) and on the anchor path (a document
  without markers that contains the anchor).
\<close>

lemma second_splice_adds_newline:
  "(\<not> py_in MARKER_START A \<and> \<not> py_in MARKER_END A \<and> \<not> py_in MARKER_END old \<longrightarrow>
      inject_html (A @ MARKER_START @ old @ MARKER_END @ B) (build_html pubs)
        = Inr (A @ build_html pubs @ B)
      \<and> inject_html (A @ build_html pubs @ B) (build_html pubs)
        = Inr (A @ build_html pubs @ NL @ B))
   \<and> (\<not> py_in MARKER_START D \<and> \<not> py_in MARKER_END D \<and> py_find anchor D = Some idx \<longrightarrow>
      inject_html D (build_html pubs) = Inr (take idx D @ build_html pubs @ NL @ drop idx D)
      \<and> inject_html (take idx D @ build_html pubs @ NL @ drop idx D) (build_html pubs)
        = Inr (take idx D @ build_html pubs @ NL @ NL @ drop idx D))"
proof (intro conjI impI)
  assume h: "\<not> py_in MARKER_START A \<and> \<not> py_in MARKER_END A \<and> \<not> py_in MARKER_END old"
  then have a: "py_find MARKER_START A = None" "py_find MARKER_END A = None"
    and o: "py_find MARKER_END old = None"
    by (simp_all add: py_in_def)
  show "inject_html (A @ MARKER_START @ old @ MARKER_END @ B) (build_html pubs)
        = Inr (A @ build_html pubs @ B)"
    by (rule inject_markers [OF a o])
  show "inject_html (A @ build_html pubs @ B) (build_html pubs)
        = Inr (A @ build_html pubs @ NL @ B)"
    by (rule splice_again [OF a])
next
  assume h: "\<not> py_in MARKER_START D \<and> \<not> py_in MARKER_END D \<and> py_find anchor D = Some idx"
  then have d: "py_find MARKER_START D = None" "py_find MARKER_END D = None"
    and i: "py_find anchor D = Some idx"
    by (simp_all add: py_in_def)
  show "inject_html D (build_html pubs) = Inr (take idx D @ build_html pubs @ NL @ drop idx D)"
    by (rule inject_fallback [OF d(1) i])
  show "inject_html (take idx D @ build_html pubs @ NL @ drop idx D) (build_html pubs)
        = Inr (take idx D @ build_html pubs @ NL @ NL @ drop idx D)"
  proof -
    have t: "py_find MARKER_START (take idx D) = None" "py_find MARKER_END (take idx D) = None"
      using d by (simp_all add: py_find_take_None)
    from splice_again [OF t, of pubs "NL @ drop idx D"] show ?thesis
      by simp
  qed
qed

text \<open>
  C1. Splicing is not idempotent in the code. With the fragment rendered for one record, the
  first splice into \<open><body> + MARKER_START + old + MARKER_END + </body>\<close> gives
  \<open><body> + fragment + </body>\<close>; splicing the same fragment into that result gives
  \<open><body> + fragment + newline + </body>\<close>, a different text.
\<close>

theorem second_splice_differs:
  "inject_html (''<body>'' @ MARKER_START @ ''old'' @ MARKER_END @ ''</body>'')
       (build_html [sample_pub 2020 ''Title''])
     = Inr (''<body>'' @ build_html [sample_pub 2020 ''Title''] @ ''</body>'')
   \<and> inject_html (''<body>'' @ build_html [sample_pub 2020 ''Title''] @ ''</body>'')
       (build_html [sample_pub 2020 ''Title''])
     = Inr (''<body>'' @ build_html [sample_pub 2020 ''Title''] @ NL @ ''</body>'')
   \<and> ''<body>'' @ build_html [sample_pub 2020 ''Title''] @ NL @ ''</body>''
     \<noteq> ''<body>'' @ build_html [sample_pub 2020 ''Title''] @ ''</body>''"
proof -
  have a: "py_find MARKER_START ''<body>'' = None" "py_find MARKER_END ''<body>'' = None"
    by (simp_all add: MARKER_START_def MARKER_END_def)
  have o: "py_find MARKER_END ''old'' = None"
    by (simp add: MARKER_END_def)
  have "NL @ ''</body>'' \<noteq> ''</body>''"
    by (simp add: NL_def)
  then have "''<body>'' @ build_html [sample_pub 2020 ''Title''] @ NL @ ''</body>''
     \<noteq> ''<body>'' @ build_html [sample_pub 2020 ''Title''] @ ''</body>''"
    by (simp only: same_append_eq simp_thms)
  with inject_markers [OF a o, of "''</body>''" "build_html [sample_pub 2020 ''Title'']"]
    splice_again [OF a, of "[sample_pub 2020 ''Title'']" "''</body>''"]
  show ?thesis by blast
qed

section \<open>Orchestrator\<close>

lemma inject_missing_anchor:
  assumes "\<not> (py_in MARKER_START D \<and> py_in MARKER_END D)" and "\<not> py_in anchor D"
  shows "inject_html D F = Inl (SystemExit ''Could not find insertion anchor in papers/index.html'')"
  using assms by (auto simp: inject_html_def)

lemma main_hard_failure:
  assumes "\<not> (py_in MARKER_START D \<and> py_in MARKER_END D)" and "\<not> py_in anchor D"
    and "doc_text w = Some D"
    and "fetch_publications fetch_page = Some (Inr pubs, requested)" and "pubs \<noteq> []"
  shows "main fetch_page papers_index w =
           Some (Raised (SystemExit ''Could not find insertion anchor in papers/index.html''),
                 w\<lparr>requests := requests w @ requested, reads := Suc (reads w)\<rparr>)"
  using assms(3-5) inject_missing_anchor [OF assms(1,2), of "build_html pubs"]
  by (simp add: main_def Let_def)

lemma main_zero_records:
  assumes "fetch_publications fetch_page = Some (Inr [], requested)"
  shows "main fetch_page papers_index w =
           Some (Returned 1,
                 w\<lparr>requests := requests w @ requested,
                   stdout := stdout w @ [''No publications fetched.'']\<rparr>)"
  using assms by (simp add: main_def Let_def)

lemma crawl_empty_listing: "fetch_publications empty_listing = Some (Inr [], [0])"
  unfolding fetch_publications_def
  by (subst crawl_loop.simps) (simp add: empty_listing_def parse_rows_def)

lemma plain_document:
  "\<not> (py_in MARKER_START ''<html></html>'' \<and> py_in MARKER_END ''<html></html>'')"
  "\<not> py_in anchor ''<html></html>''"
  by (simp_all add: py_in_def MARKER_START_def MARKER_END_def anchor_def)

text \<open>
  C7. For a document that contains neither both markers nor the anchor, the splice raises
  \<^verbatim>\<open>SystemExit\<close> with the message about the missing insertion anchor. A run of \<^verbatim>\<open>main\<close>
  on such a document whose crawl gives at least one record ends with that error after reading
  the document once, and no run that ends writes the document: its text and the list of writes
  are as before.
\<close>

theorem missing_anchor_fails_without_write:
  assumes "\<not> (py_in MARKER_START D \<and> py_in MARKER_END D)" and "\<not> py_in anchor D"
    and "doc_text w = Some D"
  shows "inject_html D F = Inl (SystemExit ''Could not find insertion anchor in papers/index.html'')
    \<and> (fetch_publications fetch_page = Some (Inr pubs, requested) \<and> pubs \<noteq> [] \<longrightarrow>
         main fetch_page papers_index w =
           Some (Raised (SystemExit ''Could not find insertion anchor in papers/index.html''),
                 w\<lparr>requests := requests w @ requested, reads := Suc (reads w)\<rparr>))
    \<and> (main fetch_page papers_index w = Some (out, w') \<longrightarrow>
         doc_text w' = Some D \<and> writes w' = writes w)"
proof (intro conjI impI)
  show "inject_html D F = Inl (SystemExit ''Could not find insertion anchor in papers/index.html'')"
    by (rule inject_missing_anchor [OF assms(1,2)])
next
  assume "fetch_publications fetch_page = Some (Inr pubs, requested) \<and> pubs \<noteq> []"
  then show "main fetch_page papers_index w =
           Some (Raised (SystemExit ''Could not find insertion anchor in papers/index.html''),
                 w\<lparr>requests := requests w @ requested, reads := Suc (reads w)\<rparr>)"
    using main_hard_failure [OF assms] by blast
next
  assume run: "main fetch_page papers_index w = Some (out, w')"
  have fail: "\<And>F. inject_html D F
      = Inl (SystemExit ''Could not find insertion anchor in papers/index.html'')"
    by (rule inject_missing_anchor [OF assms(1,2)])
  from run assms(3) show "doc_text w' = Some D"
    by (auto simp: main_def Let_def fail split: option.splits sum.splits if_splits)
  from run assms(3) show "writes w' = writes w"
    by (auto simp: main_def Let_def fail split: option.splits sum.splits if_splits)
qed

theorem missing_anchor_fails_without_write_witness:
  "inject_html ''<html></html>'' ''new''
     = Inl (SystemExit ''Could not find insertion anchor in papers/index.html'')
   \<and> main sample_listing ''papers/index.html'' (sample_world ''<html></html>'')
     = Some (Raised (SystemExit ''Could not find insertion anchor in papers/index.html''),
             \<lparr>doc_text = Some ''<html></html>'', stdout = [], requests = [0, 20, 40, 60],
              reads = 1, writes = []\<rparr>)"
proof -
  have doc: "doc_text (sample_world ''<html></html>'') = Some ''<html></html>''"
    by (simp add: sample_world_def)
  from missing_anchor_fails_without_write [OF plain_document doc, of "''new''" sample_listing
      "[sample_pub 2023 ''P1'', sample_pub 2022 ''P2'', sample_pub 2020 ''P3'',
        sample_pub 2019 ''P4'', sample_pub 2018 ''P5'']"
      "[0, 20, 40, 60]" "''papers/index.html''"] crawl_sample_listing
  show ?thesis
    by (simp add: sample_world_def)
qed

lemma run_script_zero_records:
  assumes "fetch_publications fetch_page = Some (Inr [], requested)"
  shows "run_script fetch_page papers_index w =
           Some (1, w\<lparr>requests := requests w @ requested,
                     stdout := stdout w @ [''No publications fetched.'']\<rparr>)"
  by (simp add: run_script_def exit_status_def main_zero_records [OF assms])

lemma run_script_hard_failure:
  assumes "\<not> (py_in MARKER_START D \<and> py_in MARKER_END D)" and "\<not> py_in anchor D"
    and "doc_text w = Some D"
    and "fetch_publications fetch_page = Some (Inr pubs, requested)" and "pubs \<noteq> []"
  shows "run_script fetch_page papers_index w =
           Some (1, w\<lparr>requests := requests w @ requested, reads := Suc (reads w)\<rparr>)"
  by (simp add: run_script_def exit_status_def main_hard_failure [OF assms])

text \<open>
  C8, as stated, fails for the indicator that the invoking context sees: the run with zero
  records, where \<^verbatim>\<open>main\<close> returns 1, and the run that meets the missing anchor, where
  \<^verbatim>\<open>SystemExit\<close> is raised with a text, both end the process with exit status 1.
\<close>

theorem zero_records_exit_status_counterexample:
  "map_option fst (main empty_listing ''papers/index.html'' (sample_world ''<html></html>''))
     = Some (Returned 1)
   \<and> map_option fst (main sample_listing ''papers/index.html'' (sample_world ''<html></html>''))
     = Some (Raised (SystemExit ''Could not find insertion anchor in papers/index.html''))
   \<and> map_option fst (run_script empty_listing ''papers/index.html''
        (sample_world ''<html></html>'')) = Some 1
   \<and> map_option fst (run_script sample_listing ''papers/index.html''
        (sample_world ''<html></html>'')) = Some 1"
proof -
  have doc: "doc_text (sample_world ''<html></html>'') = Some ''<html></html>''"
    by (simp add: sample_world_def)
  have ne: "[sample_pub 2023 ''P1'', sample_pub 2022 ''P2'', sample_pub 2020 ''P3'',
      sample_pub 2019 ''P4'', sample_pub 2018 ''P5''] \<noteq> []"
    by simp
  show ?thesis
    by (simp add: main_zero_records [OF crawl_empty_listing]
        run_script_zero_records [OF crawl_empty_listing]
        main_hard_failure [OF plain_document doc crawl_sample_listing ne]
        run_script_hard_failure [OF plain_document doc crawl_sample_listing ne])
qed

text \<open>
  C8, amended. If the crawl returns zero records, \<^verbatim>\<open>main\<close> prints that nothing was fetched
  and returns 1 without reading or writing the document, and the process ends with the non-zero
  exit status 1. The hard failure is not a returned value but a raised \<^verbatim>\<open>SystemExit\<close> with
  the message about the missing anchor; it ends the process with the same exit status 1.
\<close>

theorem zero_records_returns_one:
  assumes "fetch_publications fetch_page = Some (Inr [], requested)"
  shows "(\<exists>w'. main fetch_page papers_index w = Some (Returned 1, w')
            \<and> run_script fetch_page papers_index w = Some (1, w')
            \<and> doc_text w' = doc_text w \<and> reads w' = reads w \<and> writes w' = writes w
            \<and> stdout w' = stdout w @ [''No publications fetched.''])
    \<and> (1 :: int) \<noteq> 0
    \<and> (\<not> (py_in MARKER_START D \<and> py_in MARKER_END D) \<and> \<not> py_in anchor D
        \<and> doc_text w2 = Some D
        \<and> fetch_publications fetch_page2 = Some (Inr pubs, requested2) \<and> pubs \<noteq> [] \<longrightarrow>
        (\<exists>w2'. main fetch_page2 papers_index w2
             = Some (Raised (SystemExit ''Could not find insertion anchor in papers/index.html''),
                     w2')
           \<and> run_script fetch_page2 papers_index w2 = Some (1, w2')))"
proof (intro conjI impI)
  show "\<exists>w'. main fetch_page papers_index w = Some (Returned 1, w')
            \<and> run_script fetch_page papers_index w = Some (1, w')
            \<and> doc_text w' = doc_text w \<and> reads w' = reads w \<and> writes w' = writes w
            \<and> stdout w' = stdout w @ [''No publications fetched.'']"
    by (simp add: main_zero_records [OF assms] run_script_zero_records [OF assms])
  show "(1 :: int) \<noteq> 0" by simp
next
  assume h: "\<not> (py_in MARKER_START D \<and> py_in MARKER_END D) \<and> \<not> py_in anchor D
        \<and> doc_text w2 = Some D
        \<and> fetch_publications fetch_page2 = Some (Inr pubs, requested2) \<and> pubs \<noteq> []"
  have hard: "main fetch_page2 papers_index w2 =
           Some (Raised (SystemExit ''Could not find insertion anchor in papers/index.html''),
                 w2\<lparr>requests := requests w2 @ requested2, reads := Suc (reads w2)\<rparr>)"
    using h by (intro main_hard_failure [where pubs = pubs]) simp_all
  have status: "run_script fetch_page2 papers_index w2 =
           Some (1, w2\<lparr>requests := requests w2 @ requested2, reads := Suc (reads w2)\<rparr>)"
    using h by (intro run_script_hard_failure [where pubs = pubs and D = D]) simp_all
  show "\<exists>w2'. main fetch_page2 papers_index w2
             = Some (Raised (SystemExit ''Could not find insertion anchor in papers/index.html''),
                     w2')
           \<and> run_script fetch_page2 papers_index w2 = Some (1, w2')"
    by (simp add: hard status)
qed

theorem zero_records_returns_one_witness:
  "main empty_listing ''papers/index.html'' (sample_world ''<html></html>'')
     = Some (Returned 1,
             \<lparr>doc_text = Some ''<html></html>'', stdout = [''No publications fetched.''],
              requests = [0], reads = 0, writes = []\<rparr>)
   \<and> run_script empty_listing ''papers/index.html'' (sample_world ''<html></html>'')
     = Some (1,
             \<lparr>doc_text = Some ''<html></html>'', stdout = [''No publications fetched.''],
              requests = [0], reads = 0, writes = []\<rparr>)
   \<and> run_script sample_listing ''papers/index.html'' (sample_world ''<html></html>'')
     = Some (1,
             \<lparr>doc_text = Some ''<html></html>'', stdout = [], requests = [0, 20, 40, 60],
              reads = 1, writes = []\<rparr>)"
proof -
  have doc: "doc_text (sample_world ''<html></html>'') = Some ''<html></html>''"
    by (simp add: sample_world_def)
  have ne: "[sample_pub 2023 ''P1'', sample_pub 2022 ''P2'', sample_pub 2020 ''P3'',
      sample_pub 2019 ''P4'', sample_pub 2018 ''P5''] \<noteq> []"
    by simp
  have zero: "main empty_listing ''papers/index.html'' (sample_world ''<html></html>'')
     = Some (Returned 1,
             \<lparr>doc_text = Some ''<html></html>'', stdout = [''No publications fetched.''],
              requests = [0], reads = 0, writes = []\<rparr>)"
    using main_zero_records [OF crawl_empty_listing, of "''papers/index.html''"
        "sample_world ''<html></html>''"]
    by (simp add: sample_world_def)
  have hard: "main sample_listing ''papers/index.html'' (sample_world ''<html></html>'')
     = Some (Raised (SystemExit ''Could not find insertion anchor in papers/index.html''),
             \<lparr>doc_text = Some ''<html></html>'', stdout = [], requests = [0, 20, 40, 60],
              reads = 1, writes = []\<rparr>)"
    using main_hard_failure [OF plain_document doc crawl_sample_listing ne,
        of "''papers/index.html''"]
    by (simp add: sample_world_def)
  from zero_records_returns_one [OF crawl_empty_listing, of "''papers/index.html''"
      "sample_world ''<html></html>''" "''<html></html>''" "sample_world ''<html></html>''"
      sample_listing
      "[sample_pub 2023 ''P1'', sample_pub 2022 ''P2'', sample_pub 2020 ''P3'',
        sample_pub 2019 ''P4'', sample_pub 2018 ''P5'']"
      "[0, 20, 40, 60]"]
    plain_document doc crawl_sample_listing zero hard
  show ?thesis
    by simp
qed

end
